theory Spec2Isabelle
  imports Complex_Main
begin

section \<open>Numeric conventions\<close>

text \<open>
  The program is C. Its \<open>double\<close> values are read as real numbers, with \<open>sin\<close>, \<open>cos\<close> and
  \<open>sqrt\<close> the functions of analysis, and its \<open>int\<close> values as mathematical integers: the
  development is about the arithmetic the source writes down, without the rounding of the
  double operations, on inputs whose intermediate results stay inside the range of \<open>int\<close>.
  Two operations of C differ from their HOL namesakes and are written out: the conversion
  \<open>(int) d\<close> of a double, which drops the fraction (rounds toward zero), and the quotient
  \<open>a / b\<close> of two ints, which also rounds toward zero.
\<close>

type_synonym double = real

definition c_trunc :: "double \<Rightarrow> int" where
  "c_trunc d = (if 0 \<le> d then \<lfloor>d\<rfloor> else \<lceil>d\<rceil>)"

definition tdiv :: "int \<Rightarrow> int \<Rightarrow> int" where
  "tdiv a b = (if (a < 0) = (b < 0) then \<bar>a\<bar> div \<bar>b\<bar> else - (\<bar>a\<bar> div \<bar>b\<bar>))"


section \<open>Configuration\<close>

definition LSZH_LAT :: double where "LSZH_LAT = 47.458056"
definition LSZH_LON :: double where "LSZH_LON = 8.548056"
definition RANGE_NM :: double where "RANGE_NM = 20.0"

section \<open>The canvas\<close>

text \<open>
  \<open>Matrix\<close> of the source: the two dimensions and the two channels. A channel is indexed by
  \<open>(row, column)\<close>, as \<open>data[y][x]\<close> and \<open>weather[y][x]\<close> are; the cells of the grid are those
  with \<open>0 \<le> row < height\<close> and \<open>0 \<le> column < width\<close>. The weather enumeration is its
  ordinal, \<open>0\<close> (none) to \<open>6\<close> (extreme).
\<close>

record Matrix =
  height :: int
  width :: int
  data :: "int \<times> int \<Rightarrow> char"
  weather :: "int \<times> int \<Rightarrow> int"

definition in_grid :: "Matrix \<Rightarrow> int \<Rightarrow> int \<Rightarrow> bool" where
  "in_grid m y x = (0 \<le> x \<and> x < width m \<and> 0 \<le> y \<and> y < height m)"

definition create_square_matrix :: "int \<Rightarrow> Matrix" where
  "create_square_matrix n =
     \<lparr>height = n, width = n * 2, data = (\<lambda>_. CHR '' ''), weather = (\<lambda>_. 0)\<rparr>"

section \<open>Geo projector: great-circle distance\<close>


section \<open>Sweep compositor: the maximum radius\<close>

definition max_radius :: "int \<Rightarrow> int \<Rightarrow> int" where
  "max_radius center_x center_y =
     c_trunc (sqrt (real_of_int (center_x * center_x + center_y * center_y))) + 1"

definition sweep_max_radius :: "Matrix \<Rightarrow> int" where
  "sweep_max_radius m = max_radius (tdiv (width m) 2) (tdiv (height m) 2)"

text \<open>
  The cell \<open>(row, column)\<close> the sweep visits at a radius: lines \<open>x = center_x + (int)(radius *
  cos(theta))\<close> and \<open>y = center_y + (int)(radius * sin(theta))\<close> of the radius loop.
\<close>

definition sweep_cell :: "int \<Rightarrow> int \<Rightarrow> double \<Rightarrow> int \<Rightarrow> int \<times> int" where
  "sweep_cell center_x center_y theta radius =
     (center_y + c_trunc (real_of_int radius * sin theta),
      center_x + c_trunc (real_of_int radius * cos theta))"

text \<open>
  The guarded copy of one cell, both channels, from \<open>source\<close> to \<open>dest\<close>: the \<open>if\<close> of the
  radius loop and its two assignments, for a cell given as \<open>(row, column)\<close>.
\<close>

definition copy_cell :: "Matrix \<Rightarrow> int \<times> int \<Rightarrow> Matrix \<Rightarrow> Matrix" where
  "copy_cell source p dest =
     (case p of (y, x) \<Rightarrow>
        if x \<ge> 0 \<and> x < width dest \<and> y \<ge> 0 \<and> y < height dest
        then dest\<lparr>data := (data dest)((y, x) := data source (y, x)),
                  weather := (weather dest)((y, x) := weather source (y, x))\<rparr>
        else dest)"

text \<open>The body of the radius loop as the source has it.\<close>

definition sweep_write :: "int \<Rightarrow> int \<Rightarrow> double \<Rightarrow> Matrix \<Rightarrow> int \<Rightarrow> Matrix \<Rightarrow> Matrix" where
  "sweep_write center_x center_y theta source radius dest =
     (let x = center_x + c_trunc (real_of_int radius * cos theta);
          y = center_y + c_trunc (real_of_int radius * sin theta)
      in if x \<ge> 0 \<and> x < width dest \<and> y \<ge> 0 \<and> y < height dest
         then dest\<lparr>data := (data dest)((y, x) := data source (y, x)),
                   weather := (weather dest)((y, x) := weather source (y, x))\<rparr>
         else dest)"

text \<open>
  The radius loop \<open>for (radius = 0; radius <= max_radius; radius++)\<close>, the same in
  \<open>sonar_sweep_update\<close> and in \<open>main\<close>: the writes are folded over the radii in ascending
  order.
\<close>

definition sweep_angle :: "int \<Rightarrow> int \<Rightarrow> int \<Rightarrow> double \<Rightarrow> Matrix \<Rightarrow> Matrix \<Rightarrow> Matrix" where
  "sweep_angle center_x center_y max_r theta source dest =
     fold (sweep_write center_x center_y theta source) [0..max_r] dest"

definition num_angles :: int where "num_angles = 720"

definition sweep_theta :: "int \<Rightarrow> double" where
  "sweep_theta angle_step = (real_of_int (angle_step * 2) * pi) / real_of_int num_angles"

definition sonar_sweep_update :: "Matrix \<Rightarrow> Matrix \<Rightarrow> Matrix" where
  "sonar_sweep_update dest source =
     (let center_x = tdiv (width dest) 2;
          center_y = tdiv (height dest) 2;
          max_r = max_radius center_x center_y
      in fold (\<lambda>angle_step. sweep_angle center_x center_y max_r (sweep_theta angle_step) source)
           [0..num_angles - 1] dest)"

section \<open>Weather field generator\<close>

text \<open>
  The merge at the end of the pixel loop, \<open>if (cell_intensity > weather[y][x]) weather[y][x] =
  cell_intensity\<close>: the stored intensity becomes the larger of the two.
\<close>

definition merge_weather :: "Matrix \<Rightarrow> int \<Rightarrow> int \<Rightarrow> int \<Rightarrow> Matrix" where
  "merge_weather m y x cell_intensity =
     (if cell_intensity > weather m (y, x)
      then m\<lparr>weather := (weather m)((y, x) := cell_intensity)\<rparr>
      else m)"

text \<open>The body of the loops over \<open>y\<close> and \<open>x\<close>, for one weather cell.\<close>

definition weather_pixel :: "int \<Rightarrow> int \<Rightarrow> int \<Rightarrow> int \<Rightarrow> int \<Rightarrow> int \<Rightarrow> Matrix \<Rightarrow> Matrix" where
  "weather_pixel cell_x cell_y radius intensity y x m =
     (let dx = x - cell_x * 2;
          dy = y - cell_y;
          distance = sqrt (real_of_int (dx * dx) / 4.0 + real_of_int (dy * dy))
      in if distance < real_of_int radius
         then (let fade = 1.0 - (distance / real_of_int radius);
                   cell_intensity = c_trunc (real_of_int intensity * fade)
               in merge_weather m y x cell_intensity)
         else m)"

definition draw_weather_cell :: "int \<Rightarrow> int \<Rightarrow> int \<Rightarrow> int \<Rightarrow> Matrix \<Rightarrow> Matrix" where
  "draw_weather_cell cell_x cell_y radius intensity m =
     fold (\<lambda>y. fold (weather_pixel cell_x cell_y radius intensity y) [0..width m - 1])
       [0..height m - 1] m"

text \<open>
  \<open>rand\<close> is the sequence of values the C library's \<open>rand()\<close> returns after the seeding:
  \<open>rand k\<close> is the result of call number \<open>k\<close>. The function returns status 0 always; the
  model returns the canvas.
\<close>

definition fetch_weather_data :: "(nat \<Rightarrow> nat) \<Rightarrow> Matrix \<Rightarrow> Matrix" where
  "fetch_weather_data rand m =
     (let center_x = tdiv (width m) 4;
          center_y = tdiv (height m) 2;
          num_cells = 3 + rand 0 mod 5
      in fold (\<lambda>cell.
                 let cell_x = center_x - 30 + int (rand (4 * cell + 1) mod 60);
                     cell_y = center_y - 30 + int (rand (4 * cell + 2) mod 60);
                     radius = 5 + int (rand (4 * cell + 3) mod 15);
                     intensity = 1 + int (rand (4 * cell + 4) mod 5)
                 in draw_weather_cell cell_x cell_y radius intensity)
           [0..<num_cells] m)"

section \<open>Canvas writes\<close>

text \<open>
  A store into \<open>data[y][x]\<close>. The rows are heap arrays of \<open>width\<close> characters: a store at a
  cell outside the grid is outside the arrays, and is the fault \<open>OutOfBounds y x\<close> here.
\<close>

datatype fault = OutOfBounds int int

definition poke :: "Matrix \<Rightarrow> int \<Rightarrow> int \<Rightarrow> char \<Rightarrow> fault + Matrix" where
  "poke m y x c =
     (if in_grid m y x then Inr (m\<lparr>data := (data m)((y, x) := c)\<rparr>)
      else Inl (OutOfBounds y x))"

definition and_then :: "fault + 'a \<Rightarrow> ('a \<Rightarrow> fault + 'b) \<Rightarrow> fault + 'b" where
  "and_then r f = (case r of Inl e \<Rightarrow> Inl e | Inr v \<Rightarrow> f v)"

definition display_symbol :: "Matrix \<Rightarrow> int \<Rightarrow> int \<Rightarrow> fault + Matrix" where
  "display_symbol m x y =
     (let scaled_x = x * 2
      in if scaled_x \<ge> 0 \<and> scaled_x < width m \<and> y \<ge> 0 \<and> y < height m
         then poke m y scaled_x (CHR ''X'')
         else Inr m)"

definition display_slash :: "Matrix \<Rightarrow> int \<Rightarrow> int \<Rightarrow> fault + Matrix" where
  "display_slash m x y =
     (let scaled_x = (x + 1) * 2;
          slash_y = y - 1
      in if scaled_x \<ge> 0 \<and> scaled_x < width m \<and> slash_y \<ge> 0 \<and> slash_y < height m
         then poke m slash_y scaled_x (CHR ''/'')
         else Inr m)"

subsection \<open>Formatted text\<close>

text \<open>
  A C string ends at its first NUL; \<open>snprintf\<close> into a buffer of \<open>n\<close> bytes keeps at most
  \<open>n - 1\<close> characters. \<open>show_int\<close> is the conversion \<open>%d\<close>, \<open>show_f1\<close> the conversion
  \<open>%.1f\<close> (one decimal, the nearest, ties to even).
\<close>

definition c_str :: "string \<Rightarrow> string" where
  "c_str s = takeWhile (\<lambda>c. c \<noteq> CHR 0x00) s"

definition snprintf_cut :: "nat \<Rightarrow> string \<Rightarrow> string" where
  "snprintf_cut n s = take (n - 1) s"

definition digit_char :: "nat \<Rightarrow> char" where
  "digit_char d = ''0123456789'' ! d"

fun nat_digits :: "nat \<Rightarrow> string" where
  "nat_digits n = (if n < 10 then [digit_char n] else nat_digits (n div 10) @ [digit_char (n mod 10)])"

declare nat_digits.simps [simp del]

definition show_int :: "int \<Rightarrow> string" where
  "show_int i = (if i < 0 then CHR ''-'' # nat_digits (nat (- i)) else nat_digits (nat i))"

definition round_half_even :: "double \<Rightarrow> int" where
  "round_half_even r =
     (let f = \<lfloor>r\<rfloor>; frac = r - real_of_int f
      in if frac < 1 / 2 then f
         else if 1 / 2 < frac then f + 1
         else if even f then f else f + 1)"

definition show_f1 :: "double \<Rightarrow> string" where
  "show_f1 d =
     (let t = nat (round_half_even (\<bar>d\<bar> * 10))
      in (if d < 0 then [CHR ''-''] else []) @ nat_digits (t div 10) @ [CHR ''.''] @
         nat_digits (t mod 10))"

text \<open>
  The loop \<open>for (i = 0; buffer[i] != '\0' && (tab_offset + i) < width; i++)
  data[row][tab_offset + i] = buffer[i]\<close>, from index \<open>i\<close> on, over the rest of the buffer.
\<close>

fun put_text :: "Matrix \<Rightarrow> int \<Rightarrow> int \<Rightarrow> string \<Rightarrow> int \<Rightarrow> fault + Matrix" where
  "put_text m row tab_offset [] i = Inr m"
| "put_text m row tab_offset (c # cs) i =
     (if tab_offset + i < width m
      then and_then (poke m row (tab_offset + i) c) (\<lambda>m'. put_text m' row tab_offset cs (i + 1))
      else Inr m)"

definition label_rows :: "string \<Rightarrow> int \<Rightarrow> int \<Rightarrow> double \<Rightarrow> string list" where
  "label_rows callsign altitude_ft speed_kts distance_nm =
     [snprintf_cut 100 (take 8 (c_str callsign)),
      snprintf_cut 100 (''Alt:'' @ show_int altitude_ft @ ''ft''),
      snprintf_cut 100 (''Spd:'' @ show_int speed_kts @ ''kt''),
      snprintf_cut 100 (''Dst:'' @ show_f1 distance_nm @ ''nm'')]"

definition display_info ::
  "Matrix \<Rightarrow> int \<Rightarrow> int \<Rightarrow> string \<Rightarrow> int \<Rightarrow> int \<Rightarrow> double \<Rightarrow> fault + Matrix" where
  "display_info m x y callsign altitude_ft speed_kts distance_nm =
     (let slash_x = (x + 1) * 2;
          text_y = y - 5
      in if text_y \<ge> 0 \<and> text_y < height m
         then (let tab_offset = slash_x;
                   rows = label_rows callsign altitude_ft speed_kts distance_nm
               in and_then (put_text m text_y tab_offset (rows ! 0) 0) (\<lambda>m.
                  and_then (put_text m (text_y + 1) tab_offset (rows ! 1) 0) (\<lambda>m.
                  and_then (put_text m (text_y + 2) tab_offset (rows ! 2) 0) (\<lambda>m.
                  put_text m (text_y + 3) tab_offset (rows ! 3) 0))))
         else Inr m)"

section \<open>Geo projector: screen coordinates\<close>

definition latlon_to_screen :: "double \<Rightarrow> double \<Rightarrow> int \<Rightarrow> int \<Rightarrow> int \<times> int" where
  "latlon_to_screen lat lon w h =
     (let lat_diff = lat - LSZH_LAT;
          lon_diff = lon - LSZH_LON;
          y_nm = lat_diff * 60.0;
          x_nm = lon_diff * 60.0 * cos (LSZH_LAT * pi / 180.0);
          screen_x = tdiv w 4 + c_trunc (x_nm * real_of_int (tdiv w 4) / RANGE_NM);
          screen_y = tdiv h 2 - c_trunc (y_nm * real_of_int (tdiv h 2) / RANGE_NM);
          screen_x = (if screen_x < 0 then 0 else screen_x);
          screen_x = (if screen_x \<ge> tdiv w 2 then tdiv w 2 - 1 else screen_x);
          screen_y = (if screen_y < 6 then 6 else screen_y);
          screen_y = (if screen_y \<ge> h then h - 1 else screen_y)
      in (screen_x, screen_y))"

section \<open>The control loop\<close>

record Aircraft =
  callsign :: string
  latitude :: double
  longitude :: double
  altitude :: double
  velocity :: double
  squawk :: int
  distance :: double

definition altitude_ft :: "Aircraft \<Rightarrow> int" where
  "altitude_ft ac = c_trunc (altitude ac * 3.28084)"

definition speed_kts :: "Aircraft \<Rightarrow> int" where
  "speed_kts ac = c_trunc (velocity ac * 1.94384)"

text \<open>The body of the loop over the fetched aircraft (\<open>continue\<close> leaves the canvas as it is).\<close>

definition draw_aircraft :: "Aircraft \<Rightarrow> Matrix \<Rightarrow> fault + Matrix" where
  "draw_aircraft ac temp =
     (let (screen_x, screen_y) =
            latlon_to_screen (latitude ac) (longitude ac) (width temp) (height temp)
      in if altitude_ft ac \<le> 1800 \<or> speed_kts ac \<le> 60 then Inr temp
         else and_then (display_symbol temp screen_x screen_y) (\<lambda>m.
              and_then (display_slash m screen_x screen_y) (\<lambda>m.
              display_info m screen_x screen_y (callsign ac) (altitude_ft ac) (speed_kts ac)
                (distance ac))))"

fun draw_all :: "Aircraft list \<Rightarrow> Matrix \<Rightarrow> fault + Matrix" where
  "draw_all [] temp = Inr temp"
| "draw_all (ac # acs) temp = and_then (draw_aircraft ac temp) (draw_all acs)"

definition clear_data :: "Matrix \<Rightarrow> Matrix" where
  "clear_data m =
     fold (\<lambda>i. fold (\<lambda>j t. t\<lparr>data := (data t)((i, j) := CHR '' '')\<rparr>) [0..width m - 1])
       [0..height m - 1] m"

definition title_text :: "int \<Rightarrow> string" where
  "title_text aircraft_count =
     snprintf_cut 100 (''LSZH - Aircraft: '' @ show_int aircraft_count @
       '' | Weather: MeteoSwiss Radar (Simulated)'')"

definition center_marker :: "Matrix \<Rightarrow> fault + Matrix" where
  "center_marker m =
     (let center_x_marker = tdiv (width m) 4;
          center_y_marker = tdiv (height m) 2
      in if center_y_marker \<ge> 0 \<and> center_y_marker < height m \<and> center_x_marker * 2 < width m
         then poke m center_y_marker (center_x_marker * 2) (CHR ''+'')
         else Inr m)"

text \<open>
  \<open>fetch_aircraft_data\<close> talks to the network: its outcome is an input here, \<open>None\<close> for the
  failure status \<open>-1\<close> and \<open>Some\<close> of the records it kept for status \<open>0\<close>.
\<close>

definition redraw_aircraft :: "Aircraft list \<Rightarrow> Matrix \<Rightarrow> fault + Matrix" where
  "redraw_aircraft aircraft_list temp =
     and_then (put_text (clear_data temp) 0 0 (title_text (int (length aircraft_list))) 0) (\<lambda>m.
     and_then (center_marker m) (draw_all aircraft_list))"

record radar_state =
  screen :: Matrix
  temp_screen :: Matrix
  current_angle :: int
  last_fetch_time :: int
  last_weather_fetch :: int

definition fetch_interval :: int where "fetch_interval = 10"
definition weather_fetch_interval :: int where "weather_fetch_interval = 60"

definition weather_block :: "int \<Rightarrow> (nat \<Rightarrow> nat) \<Rightarrow> radar_state \<Rightarrow> radar_state" where
  "weather_block current_time rand st =
     (if current_time - last_weather_fetch st \<ge> weather_fetch_interval
      then st\<lparr>temp_screen := fetch_weather_data rand (temp_screen st),
              last_weather_fetch := current_time\<rparr>
      else st)"

definition aircraft_block ::
  "int \<Rightarrow> Aircraft list option \<Rightarrow> radar_state \<Rightarrow> fault + radar_state" where
  "aircraft_block current_time fetched st =
     (if current_time - last_fetch_time st \<ge> fetch_interval
      then and_then
             (case fetched of
                Some aircraft_list \<Rightarrow> redraw_aircraft aircraft_list (temp_screen st)
              | None \<Rightarrow> Inr (temp_screen st))
             (\<lambda>t. Inr (st\<lparr>temp_screen := t, last_fetch_time := current_time\<rparr>))
      else Inr st)"

definition sweep_block :: "radar_state \<Rightarrow> radar_state" where
  "sweep_block st =
     (let center_x = tdiv (width (screen st)) 2;
          center_y = tdiv (height (screen st)) 2;
          max_r = max_radius center_x center_y;
          theta = sweep_theta (current_angle st)
      in st\<lparr>screen := sweep_angle center_x center_y max_r theta (temp_screen st) (screen st),
            current_angle := (current_angle st + 1) mod num_angles\<rparr>)"

text \<open>One iteration of \<open>while (1)\<close> in \<open>main\<close>, at clock reading \<open>current_time\<close>.\<close>

definition main_step ::
  "int \<Rightarrow> (nat \<Rightarrow> nat) \<Rightarrow> Aircraft list option \<Rightarrow> radar_state \<Rightarrow> fault + radar_state" where
  "main_step current_time rand fetched st =
     and_then (aircraft_block current_time fetched (weather_block current_time rand st))
       (\<lambda>st. Inr (sweep_block st))"

definition initial_state :: radar_state where
  "initial_state =
     \<lparr>screen = create_square_matrix 120, temp_screen = create_square_matrix 120,
      current_angle = 0, last_fetch_time = 0, last_weather_fetch = 0\<rparr>"

section \<open>Arithmetic of the conversions\<close>

lemma c_trunc_nonneg: "0 \<le> d \<Longrightarrow> c_trunc d = \<lfloor>d\<rfloor>"
  by (simp add: c_trunc_def)

lemma tdiv_two: "tdiv (n * 2) 2 = n"
  by (auto simp: tdiv_def)

lemma tdiv_nonneg: "0 \<le> a \<Longrightarrow> 0 < b \<Longrightarrow> tdiv a b = a div b"
  by (simp add: tdiv_def)

lemma floor_sqrt_18000: "\<lfloor>sqrt (18000::real)\<rfloor> = 134"
proof -
  have "sqrt (134^2) \<le> sqrt (18000::real)" by (rule real_sqrt_le_mono) simp
  moreover have "sqrt (18000::real) < sqrt (135^2)" by (rule real_sqrt_less_mono) simp
  ultimately show ?thesis by (simp add: floor_eq_iff)
qed

section \<open>Loops as folds\<close>

text \<open>
  Two facts about a loop, read as a fold over its index range: a property every iteration
  keeps holds at the end, and a property one iteration establishes and every later one keeps
  holds at the end as well.
\<close>


lemma fold_preserves:
  assumes "P s" and "\<And>x s. x \<in> set xs \<Longrightarrow> P s \<Longrightarrow> P (f x s)"
  shows "P (fold f xs s)"
  using assms by (induction xs arbitrary: s) auto

lemma fold_reaches:
  assumes "x \<in> set xs" and "P s"
    and "\<And>y s. P s \<Longrightarrow> P (f y s)"
    and "\<And>s. P s \<Longrightarrow> Q (f x s)"
    and "\<And>y s. P s \<Longrightarrow> Q s \<Longrightarrow> Q (f y s)"
  shows "Q (fold f xs s)"
  using assms(1,2)
proof (induction xs arbitrary: s)
  case Nil
  then show ?case by simp
next
  case (Cons a xs)
  show ?case
  proof (cases "a = x")
    case True
    have "P (fold f xs (f x s)) \<and> Q (fold f xs (f x s))"
      by (rule fold_preserves [where P = "\<lambda>t. P t \<and> Q t"])
         (auto intro: assms Cons.prems)
    with True show ?thesis by simp
  next
    case False
    with Cons.prems have "x \<in> set xs" "P (f a s)" by (auto intro: assms)
    with Cons.IH show ?thesis by simp
  qed
qed

section \<open>Weather field generator: what a refresh does to a cell\<close>

lemma merge_weather_frame [simp]:
  "height (merge_weather m y x c) = height m"
  "width (merge_weather m y x c) = width m"
  "data (merge_weather m y x c) = data m"
  by (simp_all add: merge_weather_def)

lemma merge_weather_max: "weather (merge_weather m y x c) (y, x) = max (weather m (y, x)) c"
  by (simp add: merge_weather_def)

lemma merge_weather_other: "p \<noteq> (y, x) \<Longrightarrow> weather (merge_weather m y x c) p = weather m p"
  by (simp add: merge_weather_def)

lemma merge_weather_mono: "weather m p \<le> weather (merge_weather m y x c) p"
  by (cases "p = (y, x)") (simp_all add: merge_weather_max merge_weather_other)

lemma weather_pixel_frame [simp]:
  "height (weather_pixel cx cy r i y x m) = height m"
  "width (weather_pixel cx cy r i y x m) = width m"
  "data (weather_pixel cx cy r i y x m) = data m"
  by (simp_all add: weather_pixel_def Let_def)

lemma weather_pixel_mono: "weather m p \<le> weather (weather_pixel cx cy r i y x m) p"
  by (simp add: weather_pixel_def Let_def merge_weather_mono)

lemma weather_pixel_other:
  "p \<noteq> (y, x) \<Longrightarrow> weather (weather_pixel cx cy r i y x m) p = weather m p"
  by (simp add: weather_pixel_def Let_def merge_weather_other)

lemma fade_candidate_le:
  assumes "0 \<le> d" "d < r" "0 \<le> i"
  shows "c_trunc (real_of_int i * (1 - d / r)) \<le> i"
    and "0 \<le> c_trunc (real_of_int i * (1 - d / r))"
    and "0 < d \<Longrightarrow> 1 \<le> i \<Longrightarrow> c_trunc (real_of_int i * (1 - d / r)) \<le> i - 1"
proof -
  from assms have r: "0 < r" by simp
  with assms have f0: "0 < 1 - d / r" and f1: "1 - d / r \<le> 1" by simp_all
  have nn: "0 \<le> real_of_int i * (1 - d / r)" using f0 assms(3) by simp
  have le: "real_of_int i * (1 - d / r) \<le> real_of_int i"
    using f1 assms(3) by (simp add: mult_left_le)
  show "c_trunc (real_of_int i * (1 - d / r)) \<le> i"
    using nn le by (simp add: c_trunc_nonneg floor_le_iff)
  show "0 \<le> c_trunc (real_of_int i * (1 - d / r))"
    using nn by (simp add: c_trunc_nonneg)
  show "c_trunc (real_of_int i * (1 - d / r)) \<le> i - 1" if "0 < d" "1 \<le> i"
  proof -
    from that r have "1 - d / r < 1" by simp
    with that have "real_of_int i * (1 - d / r) < real_of_int i * 1"
      by (intro mult_strict_left_mono) simp_all
    then have "\<lfloor>real_of_int i * (1 - d / r)\<rfloor> < i" by (simp add: floor_less_iff)
    with nn show ?thesis by (simp add: c_trunc_nonneg)
  qed
qed

lemma ell_dist_nonneg: "0 \<le> sqrt (real_of_int (dx * dx) / 4 + real_of_int (dy * dy))"
  by simp


lemma weather_pixel_le:
  assumes "0 \<le> i"
  shows "weather (weather_pixel cx cy r i y x m) p \<le> max (weather m p) i"
proof (cases "p = (y, x)")
  case False
  then show ?thesis by (simp add: weather_pixel_other)
next
  case True
  show ?thesis
    unfolding True weather_pixel_def Let_def
    using fade_candidate_le(1) [OF ell_dist_nonneg _ assms, of "x - cx * 2" "y - cy" "real_of_int r"]
    by (auto simp: merge_weather_max)
qed




lemma draw_weather_cell_frame [simp]:
  "height (draw_weather_cell cx cy r i m) = height m"
  "width (draw_weather_cell cx cy r i m) = width m"
  "data (draw_weather_cell cx cy r i m) = data m"
proof -
  let ?P = "\<lambda>t. height t = height m \<and> width t = width m \<and> data t = data m"
  have "?P (draw_weather_cell cx cy r i m)"
    unfolding draw_weather_cell_def
    by (rule fold_preserves [where P = ?P], simp)
       (rule fold_preserves [where P = ?P], simp_all)
  then show "height (draw_weather_cell cx cy r i m) = height m"
    "width (draw_weather_cell cx cy r i m) = width m"
    "data (draw_weather_cell cx cy r i m) = data m" by simp_all
qed

lemma draw_weather_cell_mono: "weather m p \<le> weather (draw_weather_cell cx cy r i m) p"
proof -
  let ?P = "\<lambda>t. weather m p \<le> weather t p"
  have step: "?P (weather_pixel cx cy r i y x t)" if "?P t" for y x t
    using that weather_pixel_mono [of t p cx cy r i y x] by linarith
  show ?thesis
    unfolding draw_weather_cell_def
    by (rule fold_preserves [where P = ?P], simp)
       (rule fold_preserves [where P = ?P], simp_all add: step)
qed

lemma draw_weather_cell_le:
  assumes "0 \<le> i"
  shows "weather (draw_weather_cell cx cy r i m) p \<le> max (weather m p) i"
proof -
  let ?P = "\<lambda>t. weather t p \<le> max (weather m p) i"
  have step: "?P (weather_pixel cx cy r i y x t)" if "?P t" for y x t
    using that weather_pixel_le [OF assms, of cx cy r y x t p] by linarith
  show ?thesis
    unfolding draw_weather_cell_def
    by (rule fold_preserves [where P = ?P], simp)
       (rule fold_preserves [where P = ?P], simp_all add: step)
qed


lemma fetch_weather_data_frame [simp]:
  "height (fetch_weather_data rand m) = height m"
  "width (fetch_weather_data rand m) = width m"
  "data (fetch_weather_data rand m) = data m"
proof -
  let ?P = "\<lambda>t. height t = height m \<and> width t = width m \<and> data t = data m"
  have "?P (fetch_weather_data rand m)"
    unfolding fetch_weather_data_def Let_def
    by (rule fold_preserves [where P = ?P]) simp_all
  then show "height (fetch_weather_data rand m) = height m"
    "width (fetch_weather_data rand m) = width m"
    "data (fetch_weather_data rand m) = data m" by simp_all
qed

lemma fetch_weather_data_mono: "weather m p \<le> weather (fetch_weather_data rand m) p"
proof -
  let ?P = "\<lambda>t. weather m p \<le> weather t p"
  have step: "?P (draw_weather_cell cx cy r i t)" if "?P t" for cx cy r i t
    using that draw_weather_cell_mono [of t p cx cy r i] by linarith
  show ?thesis
    unfolding fetch_weather_data_def Let_def
    by (rule fold_preserves [where P = ?P]) (simp_all add: step)
qed

lemma fetch_weather_data_le: "weather (fetch_weather_data rand m) p \<le> max (weather m p) 5"
proof -
  let ?P = "\<lambda>t. weather t p \<le> max (weather m p) 5"
  have step: "?P (draw_weather_cell cx cy r (1 + int (k mod 5)) t)" if "?P t" for cx cy r k t
  proof -
    have "weather (draw_weather_cell cx cy r (1 + int (k mod 5)) t) p
            \<le> max (weather t p) (1 + int (k mod 5))"
      by (rule draw_weather_cell_le) simp
    moreover have "1 + int (k mod 5) \<le> 5" by simp
    ultimately show ?thesis using that by linarith
  qed
  show ?thesis
    unfolding fetch_weather_data_def Let_def
    by (rule fold_preserves [where P = ?P]) (simp_all add: step)
qed

section \<open>Canvas writes: where the text goes\<close>

lemma and_then_Inr [simp]: "and_then (Inr v) f = f v"
  by (simp add: and_then_def)

lemma and_then_Inl [simp]: "and_then (Inl e) f = Inl e"
  by (simp add: and_then_def)

lemma poke_in_grid: "in_grid m y x \<Longrightarrow> poke m y x c = Inr (m\<lparr>data := (data m)((y, x) := c)\<rparr>)"
  by (simp add: poke_def)

lemma poke_outside: "\<not> in_grid m y x \<Longrightarrow> poke m y x c = Inl (OutOfBounds y x)"
  by (simp add: poke_def)

lemma put_text_in_row:
  assumes "0 \<le> row" "row < height m" "0 \<le> off + i"
  shows "\<exists>m'. put_text m row off buf i = Inr m' \<and> height m' = height m \<and> width m' = width m
           \<and> weather m' = weather m
           \<and> (\<forall>r c. data m' (r, c) =
                 (if r = row \<and> off + i \<le> c \<and> c < width m \<and> c < off + i + int (length buf)
                  then buf ! nat (c - (off + i)) else data m (r, c)))"
  using assms
proof (induction buf arbitrary: m i)
  case Nil
  then show ?case by auto
next
  case (Cons ch cs)
  show ?case
  proof (cases "off + i < width m")
    case False
    then show ?thesis by auto
  next
    case True
    let ?m1 = "m\<lparr>data := (data m)((row, off + i) := ch)\<rparr>"
    have p: "poke m row (off + i) ch = Inr ?m1"
      using True Cons.prems by (simp add: poke_in_grid in_grid_def)
    have "0 \<le> row" "row < height ?m1" "0 \<le> off + (i + 1)" using Cons.prems by simp_all
    from Cons.IH [OF this] obtain m' where
      m': "put_text ?m1 row off cs (i + 1) = Inr m'" "height m' = height m" "width m' = width m"
        "weather m' = weather m"
        "\<And>r c. data m' (r, c) =
           (if r = row \<and> off + (i + 1) \<le> c \<and> c < width m \<and> c < off + (i + 1) + int (length cs)
            then cs ! nat (c - (off + (i + 1))) else data ?m1 (r, c))"
      by auto
    have nth: "(ch # cs) ! nat (c - (off + i)) = cs ! nat (c - (off + (i + 1)))"
      if "off + (i + 1) \<le> c" for c
    proof -
      from that have "nat (c - (off + i)) = Suc (nat (c - (off + (i + 1))))" by linarith
      then show ?thesis by simp
    qed
    have "put_text m row off (ch # cs) i = Inr m'"
      using True p m'(1) by simp
    moreover have "data m' (r, c) =
        (if r = row \<and> off + i \<le> c \<and> c < width m \<and> c < off + i + int (length (ch # cs))
         then (ch # cs) ! nat (c - (off + i)) else data m (r, c))" for r c
    proof (cases "r = row \<and> c = off + i")
      case True
      then show ?thesis using m'(5) [of r c] \<open>off + i < width m\<close> by simp
    next
      case False
      then show ?thesis using m'(5) [of r c] nth [of c] by auto
    qed
    ultimately show ?thesis using m'(2,3,4) by blast
  qed
qed


lemma display_info_label:
  assumes "0 \<le> y - 5" "y - 2 < height m" "0 \<le> x + 1"
  shows "\<exists>m'. display_info m x y cs a s d = Inr m' \<and> height m' = height m
           \<and> width m' = width m \<and> weather m' = weather m
           \<and> (\<forall>r c. data m' (r, c) =
                 (if y - 5 \<le> r \<and> r \<le> y - 2 \<and> (x + 1) * 2 \<le> c \<and> c < width m
                      \<and> c < (x + 1) * 2 + int (length (label_rows cs a s d ! nat (r - (y - 5))))
                  then label_rows cs a s d ! nat (r - (y - 5)) ! nat (c - (x + 1) * 2)
                  else data m (r, c)))"
proof -
  let ?off = "(x + 1) * 2"
  let ?rows = "label_rows cs a s d"
  have off: "0 \<le> ?off + 0" using assms(3) by simp
  from put_text_in_row [of "y - 5" m ?off 0 "?rows ! 0"] assms off obtain m1 where
    m1: "put_text m (y - 5) ?off (?rows ! 0) 0 = Inr m1" "height m1 = height m"
      "width m1 = width m" "weather m1 = weather m"
      "\<And>r c. data m1 (r, c) =
         (if r = y - 5 \<and> ?off \<le> c \<and> c < width m \<and> c < ?off + int (length (?rows ! 0))
          then ?rows ! 0 ! nat (c - ?off) else data m (r, c))"
    by auto
  from put_text_in_row [of "y - 5 + 1" m1 ?off 0 "?rows ! 1"] assms off m1(2,3) obtain m2 where
    m2: "put_text m1 (y - 5 + 1) ?off (?rows ! 1) 0 = Inr m2" "height m2 = height m"
      "width m2 = width m" "weather m2 = weather m1"
      "\<And>r c. data m2 (r, c) =
         (if r = y - 5 + 1 \<and> ?off \<le> c \<and> c < width m \<and> c < ?off + int (length (?rows ! 1))
          then ?rows ! 1 ! nat (c - ?off) else data m1 (r, c))"
    by auto
  from put_text_in_row [of "y - 5 + 2" m2 ?off 0 "?rows ! 2"] assms off m2(2,3) obtain m3 where
    m3: "put_text m2 (y - 5 + 2) ?off (?rows ! 2) 0 = Inr m3" "height m3 = height m"
      "width m3 = width m" "weather m3 = weather m2"
      "\<And>r c. data m3 (r, c) =
         (if r = y - 5 + 2 \<and> ?off \<le> c \<and> c < width m \<and> c < ?off + int (length (?rows ! 2))
          then ?rows ! 2 ! nat (c - ?off) else data m2 (r, c))"
    by auto
  from put_text_in_row [of "y - 5 + 3" m3 ?off 0 "?rows ! 3"] assms off m3(2,3) obtain m4 where
    m4: "put_text m3 (y - 5 + 3) ?off (?rows ! 3) 0 = Inr m4" "height m4 = height m"
      "width m4 = width m" "weather m4 = weather m3"
      "\<And>r c. data m4 (r, c) =
         (if r = y - 5 + 3 \<and> ?off \<le> c \<and> c < width m \<and> c < ?off + int (length (?rows ! 3))
          then ?rows ! 3 ! nat (c - ?off) else data m3 (r, c))"
    by auto
  have run: "display_info m x y cs a s d = Inr m4"
    using assms m1(1) m2(1) m3(1) m4(1) by (simp add: display_info_def Let_def)
  have cells: "data m4 (r, c) =
      (if y - 5 \<le> r \<and> r \<le> y - 2 \<and> ?off \<le> c \<and> c < width m
           \<and> c < ?off + int (length (?rows ! nat (r - (y - 5))))
       then ?rows ! nat (r - (y - 5)) ! nat (c - ?off) else data m (r, c))" for r c
  proof -
    consider "r = y - 5" | "r = y - 5 + 1" | "r = y - 5 + 2" | "r = y - 5 + 3"
      | "r < y - 5 \<or> y - 2 < r" by linarith
    then show ?thesis
    proof cases
      case 1
      then have "nat (r - (y - 5)) = 0" by simp
      with 1 show ?thesis by (simp add: m4(5) m3(5) m2(5) m1(5))
    next
      case 2
      then have "nat (r - (y - 5)) = 1" by simp
      with 2 show ?thesis by (simp add: m4(5) m3(5) m2(5) m1(5))
    next
      case 3
      then have "nat (r - (y - 5)) = 2" by simp
      with 3 show ?thesis by (simp add: m4(5) m3(5) m2(5) m1(5))
    next
      case 4
      then have "nat (r - (y - 5)) = 3" by simp
      with 4 show ?thesis by (simp add: m4(5) m3(5) m2(5) m1(5))
    next
      case 5
      then show ?thesis by (auto simp: m4(5) m3(5) m2(5) m1(5))
    qed
  qed
  from run cells m4(2,3,4) m3(4) m2(4) m1(4) show ?thesis by auto
qed

lemma display_info_skipped:
  "y - 5 < 0 \<or> height m \<le> y - 5 \<Longrightarrow> display_info m x y cs a s d = Inr m"
  by (auto simp: display_info_def Let_def)

lemma display_symbol_in_grid:
  "\<exists>m'. display_symbol m x y = Inr m' \<and> height m' = height m \<and> width m' = width m
         \<and> weather m' = weather m
         \<and> (\<forall>r c. data m' (r, c) =
               (if in_grid m y (x * 2) \<and> (r, c) = (y, x * 2) then CHR ''X'' else data m (r, c)))"
  by (auto simp: display_symbol_def Let_def poke_def in_grid_def)

lemma display_slash_in_grid:
  "\<exists>m'. display_slash m x y = Inr m' \<and> height m' = height m \<and> width m' = width m
         \<and> weather m' = weather m
         \<and> (\<forall>r c. data m' (r, c) =
               (if in_grid m (y - 1) ((x + 1) * 2) \<and> (r, c) = (y - 1, (x + 1) * 2)
                then CHR ''/'' else data m (r, c)))"
  by (auto simp: display_slash_def Let_def poke_def in_grid_def)

section \<open>Geo projector: clamping\<close>

lemma c_trunc_zero [simp]: "c_trunc 0 = 0"
  by (simp add: c_trunc_def)

lemma latlon_to_screen_clamped:
  assumes "2 \<le> w" "7 \<le> h"
  shows "0 \<le> fst (latlon_to_screen lat lon w h)"
    and "fst (latlon_to_screen lat lon w h) < tdiv w 2"
    and "6 \<le> snd (latlon_to_screen lat lon w h)"
    and "snd (latlon_to_screen lat lon w h) < h"
proof -
  have w2: "tdiv w 2 = w div 2" "1 \<le> w div 2" using assms(1) by (simp_all add: tdiv_nonneg)
  show "0 \<le> fst (latlon_to_screen lat lon w h)"
    using w2 by (simp add: latlon_to_screen_def Let_def)
  show "fst (latlon_to_screen lat lon w h) < tdiv w 2"
    using w2 by (simp add: latlon_to_screen_def Let_def)
  show "6 \<le> snd (latlon_to_screen lat lon w h)"
    using assms(2) by (simp add: latlon_to_screen_def Let_def)
  show "snd (latlon_to_screen lat lon w h) < h"
    using assms(2) by (simp add: latlon_to_screen_def Let_def)
qed

lemma latlon_to_screen_reference:
  assumes "2 \<le> w" "12 \<le> h"
  shows "latlon_to_screen LSZH_LAT LSZH_LON w h = (tdiv w 4, tdiv h 2)"
proof -
  have "tdiv w 4 = w div 4" "tdiv w 2 = w div 2" "tdiv h 2 = h div 2"
    using assms by (simp_all add: tdiv_nonneg)
  moreover have "0 \<le> w div 4" "w div 4 < w div 2" "6 \<le> h div 2" "h div 2 < h"
    using assms by presburger+
  ultimately show ?thesis
    by (simp add: latlon_to_screen_def Let_def)
qed

section \<open>The control loop: one aircraft, one refresh\<close>

lemma draw_aircraft_filtered:
  "altitude_ft ac \<le> 1800 \<or> speed_kts ac \<le> 60 \<Longrightarrow> draw_aircraft ac m = Inr m"
  by (auto simp: draw_aircraft_def split: prod.splits)

lemma draw_aircraft_marker:
  assumes dims: "2 \<le> width m" "7 \<le> height m"
    and pass: "1800 < altitude_ft ac" "60 < speed_kts ac"
  shows "\<exists>m'. draw_aircraft ac m = Inr m' \<and> height m' = height m \<and> width m' = width m
           \<and> weather m' = weather m
           \<and> data m' (snd (latlon_to_screen (latitude ac) (longitude ac) (width m) (height m)),
                       fst (latlon_to_screen (latitude ac) (longitude ac) (width m) (height m)) * 2)
               = CHR ''X''"
proof -
  obtain sx sy where p: "latlon_to_screen (latitude ac) (longitude ac) (width m) (height m) = (sx, sy)"
    by (cases "latlon_to_screen (latitude ac) (longitude ac) (width m) (height m)")
  from latlon_to_screen_clamped [OF dims, of "latitude ac" "longitude ac"] p
  have b: "0 \<le> sx" "sx < tdiv (width m) 2" "6 \<le> sy" "sy < height m" by simp_all
  have "tdiv (width m) 2 = width m div 2" using dims(1) by (simp add: tdiv_nonneg)
  with b(2) have sx2: "sx * 2 < width m" by linarith
  from display_symbol_in_grid [of m sx sy] obtain m1 where
    m1: "display_symbol m sx sy = Inr m1" "height m1 = height m" "width m1 = width m"
      "weather m1 = weather m"
      "\<And>r c. data m1 (r, c) =
         (if in_grid m sy (sx * 2) \<and> (r, c) = (sy, sx * 2) then CHR ''X'' else data m (r, c))"
    by blast
  from display_slash_in_grid [of m1 sx sy] obtain m2 where
    m2: "display_slash m1 sx sy = Inr m2" "height m2 = height m1" "width m2 = width m1"
      "weather m2 = weather m1"
      "\<And>r c. data m2 (r, c) =
         (if in_grid m1 (sy - 1) ((sx + 1) * 2) \<and> (r, c) = (sy - 1, (sx + 1) * 2)
          then CHR ''/'' else data m1 (r, c))"
    by blast
  have "0 \<le> sy - 5" "sy - 2 < height m2" "0 \<le> sx + 1"
    using b m1(2) m2(2) by simp_all
  from display_info_label [OF this, of "callsign ac" "altitude_ft ac" "speed_kts ac" "distance ac"]
  obtain m3 where
    m3: "display_info m2 sx sy (callsign ac) (altitude_ft ac) (speed_kts ac) (distance ac) = Inr m3"
      "height m3 = height m2" "width m3 = width m2" "weather m3 = weather m2"
      "\<And>r c. r = sy \<Longrightarrow> data m3 (r, c) = data m2 (r, c)"
    by auto
  have run: "draw_aircraft ac m = Inr m3"
    using pass p m1(1) m2(1) m3(1) by (simp add: draw_aircraft_def)
  have "data m3 (sy, sx * 2) = CHR ''X''"
    using b sx2 by (simp add: m3(5) m2(5) m1(5) in_grid_def)
  with run p m1(2,3,4) m2(2,3,4) m3(2,3,4) show ?thesis by simp
qed

text \<open>With the coordinates \<open>latlon_to_screen\<close> gives, no store of the loop body leaves the grid.\<close>

lemma draw_aircraft_in_grid:
  assumes "2 \<le> width m" "7 \<le> height m"
  shows "\<exists>m'. draw_aircraft ac m = Inr m'"
proof (cases "altitude_ft ac \<le> 1800 \<or> speed_kts ac \<le> 60")
  case True
  then show ?thesis by (simp add: draw_aircraft_filtered)
next
  case False
  then have "1800 < altitude_ft ac" "60 < speed_kts ac" by simp_all
  from draw_aircraft_marker [OF assms this] show ?thesis by blast
qed

lemma weather_block_frame:
  "data (temp_screen (weather_block t rand st)) = data (temp_screen st)"
  "screen (weather_block t rand st) = screen st"
  "last_fetch_time (weather_block t rand st) = last_fetch_time st"
  "current_angle (weather_block t rand st) = current_angle st"
  "t - last_weather_fetch st < weather_fetch_interval \<Longrightarrow> weather_block t rand st = st"
  by (simp_all add: weather_block_def)

lemma aircraft_block_failed:
  assumes "fetch_interval \<le> t - last_fetch_time st"
  shows "aircraft_block t None st = Inr (st\<lparr>last_fetch_time := t\<rparr>)"
  using assms by (simp add: aircraft_block_def)

lemma sweep_block_frame:
  "temp_screen (sweep_block st) = temp_screen st"
  "last_fetch_time (sweep_block st) = last_fetch_time st"
  "last_weather_fetch (sweep_block st) = last_weather_fetch st"
  by (simp_all add: sweep_block_def Let_def)

section \<open>Sweep compositor: one angle step\<close>

text \<open>
  The radius loop with the cell of each radius left open: whatever cells the radii are sent
  to, a cell of the grid that some radius is sent to ends as a copy of the source cell, and a
  cell no radius is sent to keeps its value. Nothing here depends on how \<open>cos\<close>, \<open>sin\<close> and
  the product are computed or rounded.
\<close>

lemma copy_cell_frame [simp]:
  "height (copy_cell src p t) = height t"
  "width (copy_cell src p t) = width t"
  by (simp_all add: copy_cell_def split: prod.splits)

lemma copy_cell_hit:
  assumes "in_grid t y x"
  shows "data (copy_cell src (y, x) t) (y, x) = data src (y, x)"
    and "weather (copy_cell src (y, x) t) (y, x) = weather src (y, x)"
  using assms by (simp_all add: copy_cell_def in_grid_def)

lemma copy_cell_keeps_copy:
  assumes "data t p = data src p" "weather t p = weather src p"
  shows "data (copy_cell src q t) p = data src p"
    and "weather (copy_cell src q t) p = weather src p"
  using assms by (auto simp: copy_cell_def split: prod.splits)

lemma copy_cell_miss:
  assumes "q \<noteq> p"
  shows "data (copy_cell src q t) p = data t p"
    and "weather (copy_cell src q t) p = weather t p"
  using assms by (auto simp: copy_cell_def split: prod.splits)

lemma radius_loop_frame [simp]:
  "height (fold (\<lambda>r. copy_cell src (cell_of r)) rs dest) = height dest"
  "width (fold (\<lambda>r. copy_cell src (cell_of r)) rs dest) = width dest"
proof -
  let ?P = "\<lambda>t. height t = height dest \<and> width t = width dest"
  have "?P (fold (\<lambda>r. copy_cell src (cell_of r)) rs dest)"
    by (rule fold_preserves [where P = ?P]) simp_all
  then show "height (fold (\<lambda>r. copy_cell src (cell_of r)) rs dest) = height dest"
    "width (fold (\<lambda>r. copy_cell src (cell_of r)) rs dest) = width dest" by simp_all
qed

lemma radius_loop_hit:
  assumes r: "r \<in> set rs" and cell: "cell_of r = (y, x)" and grid: "in_grid dest y x"
  shows "data (fold (\<lambda>r. copy_cell src (cell_of r)) rs dest) (y, x) = data src (y, x)
       \<and> weather (fold (\<lambda>r. copy_cell src (cell_of r)) rs dest) (y, x) = weather src (y, x)"
proof (rule fold_reaches [where x = r
      and P = "\<lambda>t. height t = height dest \<and> width t = width dest"])
  show "r \<in> set rs" by (rule r)
  show "height dest = height dest \<and> width dest = width dest" by simp
  show "height (copy_cell src (cell_of k) t) = height dest
      \<and> width (copy_cell src (cell_of k) t) = width dest"
    if "height t = height dest \<and> width t = width dest" for k t
    using that by simp
  show "data (copy_cell src (cell_of r) t) (y, x) = data src (y, x)
      \<and> weather (copy_cell src (cell_of r) t) (y, x) = weather src (y, x)"
    if "height t = height dest \<and> width t = width dest" for t
  proof -
    from that grid have "in_grid t y x" by (simp add: in_grid_def)
    then show ?thesis by (simp add: cell copy_cell_hit)
  qed
  show "data (copy_cell src (cell_of k) t) (y, x) = data src (y, x)
      \<and> weather (copy_cell src (cell_of k) t) (y, x) = weather src (y, x)"
    if "data t (y, x) = data src (y, x) \<and> weather t (y, x) = weather src (y, x)" for k t
    using that by (simp add: copy_cell_keeps_copy)
qed

lemma radius_loop_miss:
  assumes "\<forall>r\<in>set rs. cell_of r \<noteq> p"
  shows "data (fold (\<lambda>r. copy_cell src (cell_of r)) rs dest) p = data dest p
       \<and> weather (fold (\<lambda>r. copy_cell src (cell_of r)) rs dest) p = weather dest p"
  by (rule fold_preserves [where P = "\<lambda>t. data t p = data dest p \<and> weather t p = weather dest p"])
     (use assms in \<open>auto simp: copy_cell_miss\<close>)

text \<open>The loop of the source is the instance where radius \<open>r\<close> is sent to \<open>sweep_cell r\<close>.\<close>

lemma sweep_write_copy_cell:
  "sweep_write cx cy th src = (\<lambda>r. copy_cell src (sweep_cell cx cy th r))"
  by (rule ext)+ (simp add: sweep_write_def sweep_cell_def copy_cell_def Let_def)

lemma sweep_angle_radius_loop:
  "sweep_angle cx cy mr th src dest = fold (\<lambda>r. copy_cell src (sweep_cell cx cy th r)) [0..mr] dest"
  by (simp add: sweep_angle_def sweep_write_copy_cell)

lemma sweep_angle_frame [simp]:
  "height (sweep_angle cx cy mr th src dest) = height dest"
  "width (sweep_angle cx cy mr th src dest) = width dest"
  by (simp_all add: sweep_angle_radius_loop)

lemma sweep_angle_hit:
  assumes "0 \<le> r" "r \<le> mr" "sweep_cell cx cy th r = (y, x)" "in_grid dest y x"
  shows "data (sweep_angle cx cy mr th src dest) (y, x) = data src (y, x)
       \<and> weather (sweep_angle cx cy mr th src dest) (y, x) = weather src (y, x)"
  unfolding sweep_angle_radius_loop
  by (rule radius_loop_hit [where r = r]) (use assms in simp_all)

lemma sweep_angle_miss:
  assumes "\<forall>r\<in>set [0..mr]. sweep_cell cx cy th r \<noteq> p"
  shows "data (sweep_angle cx cy mr th src dest) p = data dest p
       \<and> weather (sweep_angle cx cy mr th src dest) p = weather dest p"
  unfolding sweep_angle_radius_loop
  by (rule radius_loop_miss) (use assms in simp)

lemma max_radius_pos: "1 \<le> max_radius cx cy"
proof -
  have "0 \<le> sqrt (real_of_int (cx * cx + cy * cy))" by simp
  then show ?thesis by (simp add: max_radius_def c_trunc_nonneg)
qed

lemma last_alias:
  assumes "0 \<le> r" "r \<le> mr"
  shows "sweep_cell cx cy th (Max {k. 0 \<le> k \<and> k \<le> mr \<and> sweep_cell cx cy th k = sweep_cell cx cy th r})
       = sweep_cell cx cy th r"
proof -
  let ?S = "{k. 0 \<le> k \<and> k \<le> mr \<and> sweep_cell cx cy th k = sweep_cell cx cy th r}"
  have "?S \<subseteq> {0..mr}" by auto
  then have "finite ?S" by (rule finite_subset) simp
  moreover have "r \<in> ?S" using assms by simp
  ultimately have "Max ?S \<in> ?S" by (intro Max_in) auto
  then show ?thesis by simp
qed

lemma c_trunc_sin_60: "c_trunc (sin (pi / 3)) = 0"
proof -
  have "sqrt 3 < sqrt (2^2)" by (rule real_sqrt_less_mono) simp
  then have "sqrt 3 / 2 < 1" by simp
  moreover have "0 \<le> sqrt 3 / 2" by simp
  ultimately show ?thesis by (simp add: sin_60 c_trunc_nonneg floor_eq_iff)
qed

lemma sweep_theta_120: "sweep_theta 120 = pi / 3"
  by (simp add: sweep_theta_def num_angles_def)

section \<open>Claims about the sweep radius and the distance\<close>

text \<open>
  C2 (amended). For a canvas of size \<open>n\<close> the sweep's maximum radius is
  \<open>floor (sqrt (centerX\<^sup>2 + centerY\<^sup>2)) + 1\<close> with \<open>centerX = n\<close> and \<open>centerY = n / 2\<close>: the cast
  \<open>(int) sqrt (...)\<close> drops the fraction. It is the least integer above the distance from
  the centre to a corner, and it is \<open>ceil (sqrt (...)) + 1\<close> only when the square root is a
  whole number; otherwise it is \<open>ceil (sqrt (...))\<close>.
\<close>

theorem max_radius_floor_plus_one:
  "sweep_max_radius (create_square_matrix n)
     = \<lfloor>sqrt (real_of_int (n * n + tdiv n 2 * tdiv n 2))\<rfloor> + 1
   \<and> sqrt (real_of_int (n * n + tdiv n 2 * tdiv n 2))
       < real_of_int (sweep_max_radius (create_square_matrix n))
   \<and> sweep_max_radius (create_square_matrix n)
       = (if sqrt (real_of_int (n * n + tdiv n 2 * tdiv n 2)) \<in> \<int>
          then \<lceil>sqrt (real_of_int (n * n + tdiv n 2 * tdiv n 2))\<rceil> + 1
          else \<lceil>sqrt (real_of_int (n * n + tdiv n 2 * tdiv n 2))\<rceil>)"
proof -
  define s where "s = sqrt (real_of_int (n * n + tdiv n 2 * tdiv n 2))"
  have "0 \<le> n * n + tdiv n 2 * tdiv n 2" by simp
  then have s0: "0 \<le> s" unfolding s_def by simp
  have eq: "sweep_max_radius (create_square_matrix n) = \<lfloor>s\<rfloor> + 1"
    using s0 by (simp add: sweep_max_radius_def create_square_matrix_def max_radius_def
        tdiv_two c_trunc_nonneg s_def)
  have lt: "s < real_of_int (\<lfloor>s\<rfloor> + 1)" by linarith
  have ce: "\<lfloor>s\<rfloor> + 1 = (if s \<in> \<int> then \<lceil>s\<rceil> + 1 else \<lceil>s\<rceil>)"
    by (auto simp: ceiling_altdef Ints_def)
  show ?thesis
    unfolding s_def [symmetric] using eq lt ce by simp
qed

text \<open>At the configured size 120 (centre \<open>(120, 60)\<close>) the radius is 135.\<close>

theorem max_radius_floor_plus_one_witness:
  "sweep_max_radius (create_square_matrix 120) = 135"
  using max_radius_floor_plus_one [of 120] floor_sqrt_18000
  by (simp add: tdiv_def)

text \<open>
  C2 as stated fails at the configured size: \<open>sqrt 18000\<close> lies between 134 and 135, so
  \<open>ceil (sqrt 18000) + 1\<close> is 136, and the program computes 135.
\<close>

theorem max_radius_not_ceiling_plus_one:
  "sweep_max_radius (create_square_matrix 120)
     \<noteq> \<lceil>sqrt (real_of_int (120 * 120 + 60 * 60))\<rceil> + 1"
proof -
  have a: "sweep_max_radius (create_square_matrix 120) = 135"
    using floor_sqrt_18000
    by (simp add: sweep_max_radius_def create_square_matrix_def max_radius_def
        tdiv_def c_trunc_def)
  have "(134::real) < sqrt 18000"
    using real_sqrt_less_mono [of "134^2" 18000] by simp
  then have b: "134 < \<lceil>sqrt (real_of_int (120 * 120 + 60 * 60))\<rceil>"
    by (simp add: less_ceiling_iff)
  from a b show ?thesis by linarith
qed


section \<open>Claims about the weather channel\<close>

text \<open>
  C7. A merge stores the maximum of the current and the candidate intensity, so no cell's
  intensity decreases, neither in one merge nor over a whole run of the generator; and a cell
  whose intensity is within \<open>[0, 6]\<close> before the generator runs is within \<open>[0, 6]\<close> after.
\<close>

theorem weather_merge_monotone:
  "weather (merge_weather m y x c) (y, x) = max (weather m (y, x)) c
   \<and> weather m p \<le> weather (merge_weather m y x c) p
   \<and> weather m p \<le> weather (fetch_weather_data rand m) p
   \<and> (0 \<le> weather m p \<and> weather m p \<le> 6 \<longrightarrow>
        0 \<le> weather (fetch_weather_data rand m) p \<and> weather (fetch_weather_data rand m) p \<le> 6)"
proof -
  have up: "weather (fetch_weather_data rand m) p \<le> max (weather m p) 5"
    by (rule fetch_weather_data_le)
  have mono: "weather m p \<le> weather (fetch_weather_data rand m) p"
    by (rule fetch_weather_data_mono)
  from up mono show ?thesis
    by (auto simp: merge_weather_max merge_weather_mono)
qed

text \<open>On the blank canvas of size 120, with \<open>rand\<close> returning 4 at every call.\<close>

theorem weather_merge_monotone_witness:
  "weather (merge_weather (create_square_matrix 120) 34 68 5) (34, 68) = 5
   \<and> 0 \<le> weather (fetch_weather_data (\<lambda>k. 4) (create_square_matrix 120)) (34, 68)
   \<and> weather (fetch_weather_data (\<lambda>k. 4) (create_square_matrix 120)) (34, 68) \<le> 6"
  using weather_merge_monotone [where m = "create_square_matrix 120" and y = 34 and x = 68
      and c = 5 and p = "(34, 68)" and rand = "\<lambda>k. 4"]
  by (simp add: create_square_matrix_def)




section \<open>Claims about the canvas writes\<close>

text \<open>
  C9 (the program departs from the claim). \<open>display_symbol\<close> and \<open>display_slash\<close> check all
  four bounds before their store (\<open>display_symbol_in_grid\<close>, \<open>display_slash_in_grid\<close>), but
  \<open>display_info\<close> checks only the first text row and the right edge. On the canvas of size
  120, the anchor \<open>(-3, 10)\<close> makes it store at column \<open>-4\<close> of row 5, and the anchor
  \<open>(3, 122)\<close> makes it store at row 120, one past the last row: both stores are outside the
  grid.
\<close>

theorem display_info_stores_outside_grid:
  "display_info (create_square_matrix 120) (- 3) 10 ''SWR123'' 30000 400 5
     = Inl (OutOfBounds 5 (- 4))
   \<and> display_info (create_square_matrix 120) 3 122 ''SWR123'' 30000 400 5
     = Inl (OutOfBounds 120 8)"
  by (simp add: display_info_def create_square_matrix_def label_rows_def snprintf_cut_def
      c_str_def poke_def in_grid_def show_int_def show_f1_def nat_digits.simps digit_char_def
      round_half_even_def)

text \<open>
  C6 (amended). The label block of the anchor \<open>(x, y)\<close> is skipped as a whole, no character
  written, when \<open>y - 5 < 0\<close> and also when \<open>y - 5 \<ge> height\<close>. Otherwise, when the four rows
  \<open>y - 5\<close> to \<open>y - 2\<close> are rows of the grid and the column \<open>2 (x + 1)\<close> is not negative, all
  four rows are written from row \<open>y - 5\<close> and column \<open>2 (x + 1)\<close> on, each row's characters up
  to the right edge of the canvas and no further, and nothing else changes.
\<close>

theorem label_block_emission:
  "(y - 5 < 0 \<or> height m \<le> y - 5 \<longrightarrow>
      display_info m x y cs alt spd d = Inr m)
   \<and> (0 \<le> y - 5 \<and> y - 2 < height m \<and> 0 \<le> x + 1 \<longrightarrow>
      (\<exists>m'. display_info m x y cs alt spd d = Inr m' \<and> height m' = height m
           \<and> width m' = width m \<and> weather m' = weather m
           \<and> (\<forall>r c. data m' (r, c) =
                 (if y - 5 \<le> r \<and> r \<le> y - 2 \<and> (x + 1) * 2 \<le> c \<and> c < width m
                      \<and> c < (x + 1) * 2 + int (length (label_rows cs alt spd d ! nat (r - (y - 5))))
                  then label_rows cs alt spd d ! nat (r - (y - 5)) ! nat (c - (x + 1) * 2)
                  else data m (r, c)))))"
  using display_info_skipped [of y m x cs alt spd d] display_info_label [of y m x cs alt spd d]
  by blast

text \<open>
  On the canvas of size 120: the anchor \<open>(3, 2)\<close> is skipped; the anchor \<open>(118, 10)\<close> starts
  its label at column 238, two characters of each row fit, the row below the block and the
  cell left of it stay blank.
\<close>

theorem label_block_emission_witness:
  "display_info (create_square_matrix 120) 3 2 ''SWR123'' 30000 400 5
     = Inr (create_square_matrix 120)
   \<and> (\<exists>m'. display_info (create_square_matrix 120) 118 10 ''SWR123'' 30000 400 5 = Inr m'
         \<and> data m' (5, 238) = CHR ''S'' \<and> data m' (5, 239) = CHR ''W''
         \<and> data m' (6, 238) = CHR ''A'' \<and> data m' (8, 239) = CHR ''s''
         \<and> data m' (9, 238) = CHR '' '' \<and> data m' (5, 237) = CHR '' '')"
proof -
  let ?m = "create_square_matrix 120"
  have hw: "height ?m = 120" "width ?m = 240" "data ?m = (\<lambda>_. CHR '' '')"
    by (simp_all add: create_square_matrix_def)
  have rows: "label_rows ''SWR123'' 30000 400 5 = [''SWR123'', ''Alt:30000ft'', ''Spd:400kt'', ''Dst:5.0nm'']"
    by (simp add: label_rows_def snprintf_cut_def c_str_def show_int_def show_f1_def
        nat_digits.simps digit_char_def round_half_even_def)
  have skip: "display_info ?m 3 2 ''SWR123'' 30000 400 5 = Inr ?m"
    using label_block_emission [of 2 ?m 3 "''SWR123''" 30000 400 5] by (simp add: hw)
  from label_block_emission [of 10 ?m 118 "''SWR123''" 30000 400 5]
  obtain m' where m': "display_info ?m 118 10 ''SWR123'' 30000 400 5 = Inr m'"
    and cells: "\<And>r c. data m' (r, c) =
       (if 10 - 5 \<le> r \<and> r \<le> 10 - 2 \<and> (118 + 1) * 2 \<le> c \<and> c < width ?m
            \<and> c < (118 + 1) * 2 + int (length (label_rows ''SWR123'' 30000 400 5 ! nat (r - (10 - 5))))
        then label_rows ''SWR123'' 30000 400 5 ! nat (r - (10 - 5)) ! nat (c - (118 + 1) * 2)
        else data ?m (r, c))"
    by (auto simp: hw)
  have "data m' (5, 238) = CHR ''S''" "data m' (5, 239) = CHR ''W''"
    "data m' (6, 238) = CHR ''A''" "data m' (8, 239) = CHR ''s''"
    "data m' (9, 238) = CHR '' ''" "data m' (5, 237) = CHR '' ''"
    by (simp_all add: cells rows hw)
  with skip m' show ?thesis by blast
qed

text \<open>
  C6 as stated fails below the grid: at the anchor \<open>(3, 125)\<close> on the canvas of size 120,
  \<open>y - 5 = 120\<close> is not negative, and still no row is written.
\<close>

theorem label_block_skipped_below_grid:
  "0 \<le> (125::int) - 5
   \<and> display_info (create_square_matrix 120) 3 125 ''SWR123'' 30000 400 5
       = Inr (create_square_matrix 120)"
  by (simp add: display_info_def create_square_matrix_def)

section \<open>Claims about the projection and the display filter\<close>

text \<open>
  C5. On a canvas at least 2 columns wide and 7 rows high, every \<open>(lat, lon)\<close> projects
  to a column in \<open>[0, width / 2)\<close> and a row in \<open>[6, height)\<close>; and from 12 rows on (the
  configured canvas has 240 columns and 120 rows) the reference point projects to
  \<open>(width / 4, height / 2)\<close>, the cell of the centre marker.
\<close>

theorem projection_clamped_and_centred:
  "(2 \<le> w \<and> 7 \<le> h \<longrightarrow>
      0 \<le> fst (latlon_to_screen lat lon w h) \<and> fst (latlon_to_screen lat lon w h) < tdiv w 2
      \<and> 6 \<le> snd (latlon_to_screen lat lon w h) \<and> snd (latlon_to_screen lat lon w h) < h)
   \<and> (2 \<le> w \<and> 12 \<le> h \<longrightarrow>
      latlon_to_screen LSZH_LAT LSZH_LON w h = (tdiv w 4, tdiv h 2))"
  using latlon_to_screen_clamped [of w h lat lon] latlon_to_screen_reference [of w h]
  by blast

text \<open>
  On the configured canvas: a point far to the north-west, and the reference point.
\<close>

theorem projection_clamped_and_centred_witness:
  "0 \<le> fst (latlon_to_screen 90 (- 200) 240 120) \<and> fst (latlon_to_screen 90 (- 200) 240 120) < 120
   \<and> 6 \<le> snd (latlon_to_screen 90 (- 200) 240 120) \<and> snd (latlon_to_screen 90 (- 200) 240 120) < 120
   \<and> latlon_to_screen LSZH_LAT LSZH_LON 240 120 = (60, 60)"
  using projection_clamped_and_centred [of 240 120 90 "- 200"]
  by (simp add: tdiv_def)

text \<open>
  C3. With \<open>altitude_ft = (int) (altitude * 3.28084)\<close> and \<open>speed_kts = (int) (velocity *
  1.94384)\<close>, a fetched record with \<open>altitude_ft \<le> 1800\<close> or \<open>speed_kts \<le> 60\<close> leaves the
  pending canvas as it is, in particular at 1800 ft exactly and at altitude 0; a record with
  \<open>altitude_ft > 1800\<close> and \<open>speed_kts > 60\<close> gets its marker \<open>X\<close> at its projected cell. So
  on a canvas whose cell there does not hold \<open>X\<close> yet, the record changes the canvas if and
  only if both thresholds are exceeded.
\<close>

theorem aircraft_shown_iff_above_thresholds:
  "(altitude_ft ac \<le> 1800 \<or> speed_kts ac \<le> 60 \<longrightarrow> draw_aircraft ac m = Inr m)
   \<and> (altitude_ft ac = 1800 \<longrightarrow> draw_aircraft ac m = Inr m)
   \<and> (altitude ac = 0 \<longrightarrow> draw_aircraft ac m = Inr m)
   \<and> (2 \<le> width m \<and> 7 \<le> height m \<and> 1800 < altitude_ft ac \<and> 60 < speed_kts ac \<longrightarrow>
        (\<exists>m'. draw_aircraft ac m = Inr m'
           \<and> data m' (snd (latlon_to_screen (latitude ac) (longitude ac) (width m) (height m)),
                       fst (latlon_to_screen (latitude ac) (longitude ac) (width m) (height m)) * 2)
               = CHR ''X''))
   \<and> (2 \<le> width m \<and> 7 \<le> height m
       \<and> data m (snd (latlon_to_screen (latitude ac) (longitude ac) (width m) (height m)),
                   fst (latlon_to_screen (latitude ac) (longitude ac) (width m) (height m)) * 2)
           \<noteq> CHR ''X'' \<longrightarrow>
        (draw_aircraft ac m \<noteq> Inr m) = (1800 < altitude_ft ac \<and> 60 < speed_kts ac))"
proof -
  have zero: "altitude_ft ac = 0" if "altitude ac = 0"
    using that by (simp add: altitude_ft_def)
  have drawn: "draw_aircraft ac m \<noteq> Inr m"
    if "2 \<le> width m" "7 \<le> height m" "1800 < altitude_ft ac" "60 < speed_kts ac"
      "data m (snd (latlon_to_screen (latitude ac) (longitude ac) (width m) (height m)),
               fst (latlon_to_screen (latitude ac) (longitude ac) (width m) (height m)) * 2)
         \<noteq> CHR ''X''"
    using draw_aircraft_marker [OF that(1-4)] that(5) by auto
  have kept: "draw_aircraft ac m = Inr m" if "\<not> (1800 < altitude_ft ac \<and> 60 < speed_kts ac)"
    using that draw_aircraft_filtered [of ac m] by auto
  show ?thesis
    using draw_aircraft_filtered [of ac m] draw_aircraft_marker [of m ac] zero drawn kept
    by fastforce
qed

text \<open>
  On the blank canvas of size 120: a record at 1800 ft and 61 kt and a record at altitude 0
  draw nothing; a record at 3000 m and 100 m/s over the reference point is marked at row 60,
  column 120.
\<close>

theorem aircraft_shown_iff_above_thresholds_witness:
  "altitude_ft \<lparr>callsign = ''SWR123'', latitude = 47.5, longitude = 8.6, altitude = 548.64,
      velocity = 31.5, squawk = 0, distance = 3\<rparr> = 1800
   \<and> speed_kts \<lparr>callsign = ''SWR123'', latitude = 47.5, longitude = 8.6, altitude = 548.64,
      velocity = 31.5, squawk = 0, distance = 3\<rparr> = 61
   \<and> draw_aircraft \<lparr>callsign = ''SWR123'', latitude = 47.5, longitude = 8.6, altitude = 548.64,
      velocity = 31.5, squawk = 0, distance = 3\<rparr> (create_square_matrix 120)
       = Inr (create_square_matrix 120)
   \<and> draw_aircraft \<lparr>callsign = ''SWR123'', latitude = LSZH_LAT, longitude = LSZH_LON, altitude = 0,
      velocity = 100, squawk = 0, distance = 0\<rparr> (create_square_matrix 120)
       = Inr (create_square_matrix 120)
   \<and> (\<exists>m'. draw_aircraft \<lparr>callsign = ''SWR123'', latitude = LSZH_LAT, longitude = LSZH_LON,
      altitude = 3000, velocity = 100, squawk = 0, distance = 0\<rparr> (create_square_matrix 120) = Inr m'
        \<and> data m' (60, 120) = CHR ''X'')
   \<and> draw_aircraft \<lparr>callsign = ''SWR123'', latitude = LSZH_LAT, longitude = LSZH_LON,
      altitude = 3000, velocity = 100, squawk = 0, distance = 0\<rparr> (create_square_matrix 120)
       \<noteq> Inr (create_square_matrix 120)"
proof -
  let ?low = "\<lparr>callsign = ''SWR123'', latitude = 47.5, longitude = 8.6, altitude = 548.64,
      velocity = 31.5, squawk = 0, distance = 3\<rparr>"
  let ?ground = "\<lparr>callsign = ''SWR123'', latitude = LSZH_LAT, longitude = LSZH_LON, altitude = 0,
      velocity = 100, squawk = 0, distance = 0\<rparr>"
  let ?high = "\<lparr>callsign = ''SWR123'', latitude = LSZH_LAT, longitude = LSZH_LON,
      altitude = 3000, velocity = 100, squawk = 0, distance = 0\<rparr>"
  let ?m = "create_square_matrix 120"
  have a: "altitude_ft ?low = 1800" "speed_kts ?low = 61"
    by (simp_all add: altitude_ft_def speed_kts_def c_trunc_def)
  have h: "altitude_ft ?high = 9842" "speed_kts ?high = 194"
    by (simp_all add: altitude_ft_def speed_kts_def c_trunc_def)
  have d: "height ?m = 120" "width ?m = 240" by (simp_all add: create_square_matrix_def)
  have c: "latlon_to_screen LSZH_LAT LSZH_LON 240 120 = (60, 60)"
    using latlon_to_screen_reference [of 240 120] by (simp add: tdiv_def)
  have 1: "draw_aircraft ?low ?m = Inr ?m"
    using aircraft_shown_iff_above_thresholds [of ?low ?m] a by simp
  have 2: "draw_aircraft ?ground ?m = Inr ?m"
    using aircraft_shown_iff_above_thresholds [of ?ground ?m] by simp
  have 3: "\<exists>m'. draw_aircraft ?high ?m = Inr m' \<and> data m' (60, 120) = CHR ''X''"
    using aircraft_shown_iff_above_thresholds [of ?high ?m] h d c by simp
  have 4: "draw_aircraft ?high ?m \<noteq> Inr ?m"
    using aircraft_shown_iff_above_thresholds [of ?high ?m] h d c
    by (simp add: create_square_matrix_def)
  from a 1 2 3 4 show ?thesis by blast
qed

section \<open>Claims about the control loop\<close>

text \<open>
  C8. When the aircraft refresh is due and the fetch fails, the refresh leaves the pending
  canvas as it is, both channels, and records the time of the attempt, so that the next
  attempt is made once \<open>fetch_interval\<close> (10 s) has passed again. Over the whole iteration
  of the loop the symbol channel of the pending canvas is unchanged, and the canvas as a
  whole is unchanged unless the weather refresh, which has its own schedule, is due in the
  same iteration.
\<close>

theorem failed_fetch_keeps_pending:
  "fetch_interval \<le> current_time - last_fetch_time st \<longrightarrow>
     (\<exists>st'. aircraft_block current_time None st = Inr st'
        \<and> temp_screen st' = temp_screen st \<and> screen st' = screen st
        \<and> last_fetch_time st' = current_time
        \<and> (\<forall>t. (fetch_interval \<le> t - last_fetch_time st') = (current_time + 10 \<le> t)))
     \<and> (\<exists>st'. main_step current_time rand None st = Inr st'
        \<and> data (temp_screen st') = data (temp_screen st)
        \<and> temp_screen st' = temp_screen (weather_block current_time rand st)
        \<and> (if current_time - last_weather_fetch st < weather_fetch_interval
            then temp_screen st' = temp_screen st
            else temp_screen st' = fetch_weather_data rand (temp_screen st))
        \<and> last_fetch_time st' = current_time)"
proof
  assume due: "fetch_interval \<le> current_time - last_fetch_time st"
  let ?w = "weather_block current_time rand st"
  have blk: "aircraft_block current_time None st = Inr (st\<lparr>last_fetch_time := current_time\<rparr>)"
    by (rule aircraft_block_failed [OF due])
  have "fetch_interval \<le> current_time - last_fetch_time ?w"
    using due by (simp add: weather_block_frame)
  then have blk': "aircraft_block current_time None ?w = Inr (?w\<lparr>last_fetch_time := current_time\<rparr>)"
    by (rule aircraft_block_failed)
  have step: "main_step current_time rand None st
      = Inr (sweep_block (?w\<lparr>last_fetch_time := current_time\<rparr>))"
    by (simp add: main_step_def blk')
  have first: "\<exists>st'. aircraft_block current_time None st = Inr st'
        \<and> temp_screen st' = temp_screen st \<and> screen st' = screen st
        \<and> last_fetch_time st' = current_time
        \<and> (\<forall>t. (fetch_interval \<le> t - last_fetch_time st') = (current_time + 10 \<le> t))"
    unfolding blk by (auto simp: fetch_interval_def)
  have second: "\<exists>st'. main_step current_time rand None st = Inr st'
        \<and> data (temp_screen st') = data (temp_screen st)
        \<and> temp_screen st' = temp_screen (weather_block current_time rand st)
        \<and> (if current_time - last_weather_fetch st < weather_fetch_interval
            then temp_screen st' = temp_screen st
            else temp_screen st' = fetch_weather_data rand (temp_screen st))
        \<and> last_fetch_time st' = current_time"
    unfolding step
    by (simp add: sweep_block_frame weather_block_frame) (simp add: weather_block_def)
  from first second show "(\<exists>st'. aircraft_block current_time None st = Inr st'
        \<and> temp_screen st' = temp_screen st \<and> screen st' = screen st
        \<and> last_fetch_time st' = current_time
        \<and> (\<forall>t. (fetch_interval \<le> t - last_fetch_time st') = (current_time + 10 \<le> t)))
     \<and> (\<exists>st'. main_step current_time rand None st = Inr st'
        \<and> data (temp_screen st') = data (temp_screen st)
        \<and> temp_screen st' = temp_screen (weather_block current_time rand st)
        \<and> (if current_time - last_weather_fetch st < weather_fetch_interval
            then temp_screen st' = temp_screen st
            else temp_screen st' = fetch_weather_data rand (temp_screen st))
        \<and> last_fetch_time st' = current_time)" by blast
qed

text \<open>
  From the initial state at clock reading 1000, and 15 s after a refresh of both kinds.
\<close>

theorem failed_fetch_keeps_pending_witness:
  "fetch_interval \<le> 1000 - last_fetch_time initial_state
   \<and> (\<exists>st'. aircraft_block 1000 None initial_state = Inr st'
        \<and> temp_screen st' = create_square_matrix 120 \<and> last_fetch_time st' = 1000)
   \<and> (\<exists>st'. main_step 1015 (\<lambda>k. 4) None
               (initial_state\<lparr>last_fetch_time := 1000, last_weather_fetch := 1000\<rparr>) = Inr st'
        \<and> temp_screen st' = create_square_matrix 120 \<and> last_fetch_time st' = 1015)"
proof -
  let ?st = "initial_state\<lparr>last_fetch_time := 1000, last_weather_fetch := 1000\<rparr>"
  have a: "fetch_interval \<le> 1000 - last_fetch_time initial_state"
    by (simp add: fetch_interval_def initial_state_def)
  have b: "fetch_interval \<le> 1015 - last_fetch_time ?st"
    by (simp add: fetch_interval_def)
  have c: "temp_screen initial_state = create_square_matrix 120" by (simp add: initial_state_def)
  from failed_fetch_keeps_pending [of 1000 initial_state "\<lambda>k. 4"] a c
  have 1: "\<exists>st'. aircraft_block 1000 None initial_state = Inr st'
        \<and> temp_screen st' = create_square_matrix 120 \<and> last_fetch_time st' = 1000"
    by auto
  from failed_fetch_keeps_pending [of 1015 ?st "\<lambda>k. 4"] b c
  have 2: "\<exists>st'. main_step 1015 (\<lambda>k. 4) None ?st = Inr st'
        \<and> temp_screen st' = create_square_matrix 120 \<and> last_fetch_time st' = 1015"
    by (auto simp: weather_fetch_interval_def)
  from a 1 2 show ?thesis by blast
qed

section \<open>Claims about the sweep step\<close>

text \<open>
  C1. In one angle step the radii run from 0 up to the maximum radius, and every radius
  whose cell lies in the grid copies that cell, both channels, from the pending canvas. After
  the step a visited cell holds the pending canvas's value at its own coordinate, which is
  also what the largest radius truncating to that cell wrote. This is so for the loop over
  any list of radii and any assignment \<open>cell_of\<close> of cells to radii, for the loop of the
  source (\<open>sweep_angle\<close>, radii 0 to the maximum, cells by truncation), and for the step
  \<open>main\<close> makes on its state.
\<close>

theorem sweep_step_copies_pending:
  "(radius \<in> set radii \<and> cell_of radius = (y, x) \<and> in_grid dest y x \<longrightarrow>
      data (fold (\<lambda>r. copy_cell source (cell_of r)) radii dest) (y, x) = data source (y, x)
      \<and> weather (fold (\<lambda>r. copy_cell source (cell_of r)) radii dest) (y, x)
          = weather source (y, x))
   \<and> (0 \<le> radius \<and> radius \<le> max_r \<and> sweep_cell cx cy theta radius = (y, x) \<and> in_grid dest y x \<longrightarrow>
      data (sweep_angle cx cy max_r theta source dest) (y, x) = data source (y, x)
      \<and> weather (sweep_angle cx cy max_r theta source dest) (y, x) = weather source (y, x)
      \<and> data (sweep_angle cx cy max_r theta source dest) (y, x)
          = data source (sweep_cell cx cy theta
              (Max {k. 0 \<le> k \<and> k \<le> max_r \<and> sweep_cell cx cy theta k = (y, x)}))
      \<and> weather (sweep_angle cx cy max_r theta source dest) (y, x)
          = weather source (sweep_cell cx cy theta
              (Max {k. 0 \<le> k \<and> k \<le> max_r \<and> sweep_cell cx cy theta k = (y, x)})))
   \<and> (0 \<le> radius \<and> radius \<le> sweep_max_radius (screen st)
       \<and> sweep_cell (tdiv (width (screen st)) 2) (tdiv (height (screen st)) 2)
            (sweep_theta (current_angle st)) radius = (y, x)
       \<and> in_grid (screen st) y x \<longrightarrow>
      data (screen (sweep_block st)) (y, x) = data (temp_screen st) (y, x)
      \<and> weather (screen (sweep_block st)) (y, x) = weather (temp_screen st) (y, x))"
proof -
  have gen: "data (sweep_angle cx cy max_r theta source dest) (y, x) = data source (y, x)
      \<and> weather (sweep_angle cx cy max_r theta source dest) (y, x) = weather source (y, x)
      \<and> data (sweep_angle cx cy max_r theta source dest) (y, x)
          = data source (sweep_cell cx cy theta
              (Max {k. 0 \<le> k \<and> k \<le> max_r \<and> sweep_cell cx cy theta k = (y, x)}))
      \<and> weather (sweep_angle cx cy max_r theta source dest) (y, x)
          = weather source (sweep_cell cx cy theta
              (Max {k. 0 \<le> k \<and> k \<le> max_r \<and> sweep_cell cx cy theta k = (y, x)}))"
    if h: "0 \<le> radius" "radius \<le> max_r" "sweep_cell cx cy theta radius = (y, x)"
      "in_grid dest y x"
  proof -
    from last_alias [OF h(1,2), of cx cy theta] h(3)
    have "sweep_cell cx cy theta
        (Max {k. 0 \<le> k \<and> k \<le> max_r \<and> sweep_cell cx cy theta k = (y, x)}) = (y, x)"
      by simp
    with sweep_angle_hit [OF h, of source] show ?thesis by simp
  qed
  have main: "data (screen (sweep_block st)) (y, x) = data (temp_screen st) (y, x)
      \<and> weather (screen (sweep_block st)) (y, x) = weather (temp_screen st) (y, x)"
    if h: "0 \<le> radius" "radius \<le> sweep_max_radius (screen st)"
      "sweep_cell (tdiv (width (screen st)) 2) (tdiv (height (screen st)) 2)
            (sweep_theta (current_angle st)) radius = (y, x)"
      "in_grid (screen st) y x"
    using sweep_angle_hit [OF h(1) h(2) [unfolded sweep_max_radius_def] h(3) h(4), of "temp_screen st"]
    by (simp add: sweep_block_def Let_def)
  have loop: "data (fold (\<lambda>r. copy_cell source (cell_of r)) radii dest) (y, x) = data source (y, x)
      \<and> weather (fold (\<lambda>r. copy_cell source (cell_of r)) radii dest) (y, x)
          = weather source (y, x)"
    if "radius \<in> set radii" "cell_of radius = (y, x)" "in_grid dest y x"
    using that by (rule radius_loop_hit)
  from loop gen main show ?thesis by blast
qed

text \<open>
  Angle step 120 of the configured canvas (\<open>\<theta> = \<pi> / 3\<close>): the radii 0 and 1 both truncate
  to the centre cell, row 60 and column 120, and the step copies the pending cell there.
\<close>

theorem sweep_step_copies_pending_witness:
  "sweep_cell 120 60 (sweep_theta 120) 0 = (60, 120)
   \<and> sweep_cell 120 60 (sweep_theta 120) 1 = (60, 120)
   \<and> data (fold (\<lambda>r. copy_cell
        ((create_square_matrix 120)\<lparr>data := (\<lambda>p. if p = (60, 120) then CHR ''+'' else CHR '' '')\<rparr>)
        (if r < 2 then (60, 120) else (60, 120 + r))) [0, 1, 2] (create_square_matrix 120)) (60, 120)
       = CHR ''+''
   \<and> data (sweep_angle 120 60 135 (sweep_theta 120)
        ((create_square_matrix 120)\<lparr>data := (\<lambda>p. if p = (60, 120) then CHR ''+'' else CHR '' '')\<rparr>)
        (create_square_matrix 120)) (60, 120) = CHR ''+''
   \<and> data (screen (sweep_block (initial_state\<lparr>temp_screen :=
        (create_square_matrix 120)\<lparr>data := (\<lambda>p. if p = (60, 120) then CHR ''+'' else CHR '' '')\<rparr>,
        current_angle := 120\<rparr>))) (60, 120) = CHR ''+''"
proof -
  let ?src = "(create_square_matrix 120)\<lparr>data := (\<lambda>p. if p = (60, 120) then CHR ''+'' else CHR '' '')\<rparr>"
  let ?st = "initial_state\<lparr>temp_screen := ?src, current_angle := 120\<rparr>"
  have c0: "sweep_cell 120 60 (sweep_theta 120) 0 = (60, 120)"
    by (simp add: sweep_cell_def)
  have half: "c_trunc (1 / 2) = 0" by (simp add: c_trunc_def)
  have c1: "sweep_cell 120 60 (sweep_theta 120) 1 = (60, 120)"
    by (simp add: sweep_cell_def sweep_theta_120 c_trunc_sin_60 cos_60 half)
  have d: "tdiv (width (screen ?st)) 2 = 120" "tdiv (height (screen ?st)) 2 = 60"
    "current_angle ?st = 120" "in_grid (screen ?st) 60 120"
    by (simp_all add: initial_state_def create_square_matrix_def tdiv_def in_grid_def)
  have r: "1 \<le> sweep_max_radius (screen ?st)"
    by (simp add: sweep_max_radius_def max_radius_pos)
  from sweep_step_copies_pending [where radius = 1 and st = ?st and y = 60 and x = 120
      and max_r = 0 and cx = 0 and cy = 0 and theta = 0 and dest = "screen ?st"
      and source = ?src and radii = "[]" and cell_of = "\<lambda>r. (0, 0)"] c1 d r
  have blk: "data (screen (sweep_block ?st)) (60, 120) = data (temp_screen ?st) (60, 120)"
    by simp
  have g: "in_grid (create_square_matrix 120) 60 120"
    by (simp add: create_square_matrix_def in_grid_def)
  from sweep_step_copies_pending [where radius = 1 and st = ?st and y = 60 and x = 120
      and max_r = 0 and cx = 0 and cy = 0 and theta = 0 and dest = "create_square_matrix 120"
      and source = ?src and radii = "[0, 1, 2]"
      and cell_of = "\<lambda>r. if r < 2 then (60, 120) else (60, 120 + r)"] g
  have loop: "data (fold (\<lambda>r. copy_cell ?src (if r < 2 then (60, 120) else (60, 120 + r)))
      [0, 1, 2] (create_square_matrix 120)) (60, 120) = data ?src (60, 120)"
    by simp
  from sweep_step_copies_pending [where radius = 1 and st = ?st and y = 60 and x = 120
      and max_r = 135 and cx = 120 and cy = 60 and theta = "sweep_theta 120"
      and dest = "create_square_matrix 120" and source = ?src and radii = "[]"
      and cell_of = "\<lambda>r. (0, 0)"] c1 g
  have ang: "data (sweep_angle 120 60 135 (sweep_theta 120) ?src (create_square_matrix 120))
      (60, 120) = data ?src (60, 120)"
    by simp
  from c0 c1 blk loop ang show ?thesis by simp
qed

end
